theory Spec2Isabelle
  imports Complex_Main "HOL-Library.Word"
begin

section \<open>JavaScript strings\<close>

text \<open>
  A JavaScript string is a sequence of 16-bit code units, and \<open>length\<close> counts code
  units.  String literals of the sources are written \<open>js ''...''\<close>.
\<close>

type_synonym jschar = "16 word"
type_synonym jsstring = "jschar list"

definition js :: "string \<Rightarrow> jsstring" where
  "js s = map (\<lambda>c. of_char c) s"

definition backtick :: jschar where
  "backtick = 0x60"

definition blank :: jschar where
  "blank = 0x20"

text \<open>The regular expression class \<open>\s\<close>: WhiteSpace and LineTerminator code units.\<close>

definition is_space :: "jschar \<Rightarrow> bool" where
  "is_space c =
     (c = 0x09 \<or> c = 0x0A \<or> c = 0x0B \<or> c = 0x0C \<or> c = 0x0D \<or> c = 0x20 \<or> c = 0xA0
      \<or> c = 0x1680 \<or> (0x2000 \<le> c \<and> c \<le> 0x200A) \<or> c = 0x2028 \<or> c = 0x2029
      \<or> c = 0x202F \<or> c = 0x205F \<or> c = 0x3000 \<or> c = 0xFEFF)"

text \<open>The class \<open>\w\<close>: \<open>[A-Za-z0-9_]\<close>.\<close>

definition is_word :: "jschar \<Rightarrow> bool" where
  "is_word c =
     ((0x41 \<le> c \<and> c \<le> 0x5A) \<or> (0x61 \<le> c \<and> c \<le> 0x7A) \<or> (0x30 \<le> c \<and> c \<le> 0x39)
      \<or> c = 0x5F)"

text \<open>The class \<open>[\w\s.,!?;:()-]\<close> of \<open>parseText\<close>.\<close>

definition is_allowed :: "jschar \<Rightarrow> bool" where
  "is_allowed c =
     (is_word c \<or> is_space c \<or> c = 0x2E \<or> c = 0x2C \<or> c = 0x21 \<or> c = 0x3F \<or> c = 0x3B
      \<or> c = 0x3A \<or> c = 0x28 \<or> c = 0x29 \<or> c = 0x2D)"

text \<open>\<open>String.prototype.trim\<close>: drops the white space at both ends.\<close>

fun trim_end :: "jsstring \<Rightarrow> jsstring" where
  "trim_end [] = []"
| "trim_end (c # cs) = (if trim_end cs = [] \<and> is_space c then [] else c # trim_end cs)"

definition trim :: "jsstring \<Rightarrow> jsstring" where
  "trim s = trim_end (dropWhile is_space s)"

section \<open>TextProcessor\<close>

subsection \<open>The four replacements of parseText\<close>

text \<open>
  \<open>fence\<close> is the delimiter of a markdown code block, and \<open>after_fence s\<close> is what
  follows the leftmost delimiter in \<open>s\<close>, if there is one.
\<close>

definition fence :: jsstring where
  "fence = [backtick, backtick, backtick]"

fun after_fence :: "jsstring \<Rightarrow> jsstring option" where
  "after_fence [] = None"
| "after_fence (c # cs) =
     (if take 3 (c # cs) = fence then Some (drop 3 (c # cs)) else after_fence cs)"

lemma after_fence_shorter: "after_fence s = Some r \<Longrightarrow> length r < length s"
  by (induction s) (auto split: if_splits)

text \<open>
  \<open>rawText.replace(/```[\s\S]*?```/g, '')\<close>: scanning from the left, a delimiter
  that has a later delimiter after it is removed together with everything up to and
  including the nearest such delimiter (the quantifier is lazy); the scan resumes after
  the match.  Where no match starts, the code unit is kept.
\<close>

function remove_code_blocks :: "jsstring \<Rightarrow> jsstring" where
  "remove_code_blocks [] = []"
| "remove_code_blocks (c # cs) =
     (if take 3 (c # cs) = fence then
        (case after_fence (drop 3 (c # cs)) of
           Some rest \<Rightarrow> remove_code_blocks rest
         | None \<Rightarrow> c # remove_code_blocks cs)
      else c # remove_code_blocks cs)"
  by pat_completeness auto
termination
proof (relation "measure length")
  fix c :: jschar and cs rest :: jsstring
  assume "after_fence (drop 3 (c # cs)) = Some rest"
  then have "length rest < length (drop 3 (c # cs))"
    by (rule after_fence_shorter)
  then show "(rest, c # cs) \<in> measure length"
    by simp
qed simp_all

text \<open>
  \<open>cleanText.replace(/`[^`]*`/g, '')\<close>: a backtick that has a later backtick is
  removed together with everything up to and including the next backtick.
\<close>

function remove_inline_code :: "jsstring \<Rightarrow> jsstring" where
  "remove_inline_code [] = []"
| "remove_inline_code (c # cs) =
     (if c = backtick then
        (case dropWhile (\<lambda>d. d \<noteq> backtick) cs of
           [] \<Rightarrow> c # remove_inline_code cs
         | _ # rest \<Rightarrow> remove_inline_code rest)
      else c # remove_inline_code cs)"
  by pat_completeness auto
termination
proof (relation "measure length")
  fix c :: jschar and cs rest :: jsstring and d :: jschar
  assume "dropWhile (\<lambda>d. d \<noteq> backtick) cs = d # rest"
  then have "length (d # rest) \<le> length cs"
    by (metis length_dropWhile_le)
  then show "(rest, c # cs) \<in> measure length"
    by simp
qed simp_all

text \<open>\<open>cleanText.replace(/\s+/g, ' ')\<close>: every maximal run of white space becomes one blank.\<close>

function collapse_whitespace :: "jsstring \<Rightarrow> jsstring" where
  "collapse_whitespace [] = []"
| "collapse_whitespace (c # cs) =
     (if is_space c then blank # collapse_whitespace (dropWhile is_space cs)
      else c # collapse_whitespace cs)"
  by pat_completeness auto
termination
  by (relation "measure length") (simp_all add: length_dropWhile_le less_Suc_eq_le)

text \<open>\<open>cleanText.replace(/[^\w\s.,!?;:()-]/g, '')\<close>.\<close>

definition remove_special :: "jsstring \<Rightarrow> jsstring" where
  "remove_special s = filter is_allowed s"

subsection \<open>parseText and isValidForTTS\<close>

definition parseText :: "jsstring \<Rightarrow> jsstring" where
  "parseText rawText =
     (if rawText = [] then []
      else remove_special (trim (collapse_whitespace
             (remove_inline_code (remove_code_blocks rawText)))))"

text \<open>
  \<open>text.split(/\s+/)\<close>: the pieces between the maximal runs of white space, the empty
  pieces before a leading run and after a trailing run included.
\<close>

function split_whitespace :: "jsstring \<Rightarrow> jsstring list" where
  "split_whitespace s =
     (case dropWhile (\<lambda>c. \<not> is_space c) s of
        [] \<Rightarrow> [s]
      | c # rest \<Rightarrow>
          takeWhile (\<lambda>c. \<not> is_space c) s # split_whitespace (dropWhile is_space rest))"
  by pat_completeness auto
termination
proof (relation "measure length")
  fix s rest :: jsstring and c :: jschar
  assume a: "dropWhile (\<lambda>c. \<not> is_space c) s = c # rest"
  have "length (dropWhile is_space rest) \<le> length rest"
    by (rule length_dropWhile_le)
  moreover have "length (c # rest) \<le> length s"
    by (metis a length_dropWhile_le)
  ultimately show "(dropWhile is_space rest, s) \<in> measure length"
    by simp
qed simp

definition isValidForTTS :: "jsstring \<Rightarrow> bool" where
  "isValidForTTS text =
     (if text = [] \<or> length (trim text) = 0 then False
      else if length text > 1000 then False
      else (let words = filter (\<lambda>word. length word > 0) (split_whitespace text)
            in length words > 0))"

section \<open>Objects and the store\<close>

text \<open>
  Numbers are real numbers.  An object is a bag of properties: \<open>None\<close> is a
  property that is absent (reads as \<open>undefined\<close>), so a \<open>Partial<VoiceConfig>\<close>
  has the shape of a \<open>VoiceConfig\<close>.  Objects live in a store and are passed by
  reference; a \<open>TTSCopilotConfig\<close> holds the references of its \<open>voice\<close> and
  \<open>copilot\<close> objects.
\<close>

type_synonym ref = nat

datatype error = Error string

record VoiceConfig =
  pitch :: "real option"
  speed :: "real option"
  volume :: "real option"
  voice :: "jsstring option"

record CopilotConfig =
  apiUrl :: "jsstring option"
  apiKey :: "jsstring option"
  enabled :: "bool option"

record TTSCopilotConfig =
  voiceRef :: ref
  realTimeEnabled :: bool
  copilotRef :: ref

text \<open>\<open>Partial<TTSCopilotConfig>\<close>: \<open>None\<close> is a key the caller did not give.\<close>

record PartialConfig =
  initVoice :: "ref option"
  initRealTimeEnabled :: "bool option"
  initCopilot :: "ref option"

record heap =
  voices :: "ref \<Rightarrow> VoiceConfig"
  copilots :: "ref \<Rightarrow> CopilotConfig"
  configs :: "ref \<Rightarrow> TTSCopilotConfig"
  next_ref :: ref

definition alloc_voice :: "VoiceConfig \<Rightarrow> heap \<Rightarrow> ref \<times> heap" where
  "alloc_voice v h =
     (next_ref h, h\<lparr>voices := (voices h)(next_ref h := v), next_ref := Suc (next_ref h)\<rparr>)"

definition alloc_copilot :: "CopilotConfig \<Rightarrow> heap \<Rightarrow> ref \<times> heap" where
  "alloc_copilot c h =
     (next_ref h, h\<lparr>copilots := (copilots h)(next_ref h := c), next_ref := Suc (next_ref h)\<rparr>)"

definition alloc_config :: "TTSCopilotConfig \<Rightarrow> heap \<Rightarrow> ref \<times> heap" where
  "alloc_config c h =
     (next_ref h, h\<lparr>configs := (configs h)(next_ref h := c), next_ref := Suc (next_ref h)\<rparr>)"

text \<open>A function object (\<open>bind\<close> makes one) has an identity and no properties.\<close>

definition alloc_function :: "heap \<Rightarrow> ref \<times> heap" where
  "alloc_function h = (next_ref h, h\<lparr>next_ref := Suc (next_ref h)\<rparr>)"

text \<open>Assignments \<open>o.f = v\<close> through a reference, as a caller holding the reference makes them.\<close>

definition assign_voice :: "ref \<Rightarrow> (VoiceConfig \<Rightarrow> VoiceConfig) \<Rightarrow> heap \<Rightarrow> heap" where
  "assign_voice r f h = h\<lparr>voices := (voices h)(r := f (voices h r))\<rparr>"

definition assign_copilot :: "ref \<Rightarrow> (CopilotConfig \<Rightarrow> CopilotConfig) \<Rightarrow> heap \<Rightarrow> heap" where
  "assign_copilot r f h = h\<lparr>copilots := (copilots h)(r := f (copilots h r))\<rparr>"

definition assign_config :: "ref \<Rightarrow> (TTSCopilotConfig \<Rightarrow> TTSCopilotConfig) \<Rightarrow> heap \<Rightarrow> heap" where
  "assign_config r f h = h\<lparr>configs := (configs h)(r := f (configs h r))\<rparr>"

text \<open>
  The spread \<open>{ ...a, ...b }\<close>: the properties of \<open>b\<close> win.  An object \<open>b\<close>
  that holds a key with the value \<open>undefined\<close> (the spread would copy it) is not
  represented: in \<open>b\<close>, \<open>None\<close> is a key that is absent.
\<close>

definition spread :: "'a option \<Rightarrow> 'a option \<Rightarrow> 'a option" where
  "spread a b = (case b of None \<Rightarrow> a | Some x \<Rightarrow> Some x)"

definition spread_voice :: "VoiceConfig \<Rightarrow> VoiceConfig \<Rightarrow> VoiceConfig" where
  "spread_voice a b =
     \<lparr>pitch = spread (pitch a) (pitch b), speed = spread (speed a) (speed b),
      volume = spread (volume a) (volume b), voice = spread (voice a) (voice b)\<rparr>"

definition spread_copilot :: "CopilotConfig \<Rightarrow> CopilotConfig \<Rightarrow> CopilotConfig" where
  "spread_copilot a b =
     \<lparr>apiUrl = spread (apiUrl a) (apiUrl b), apiKey = spread (apiKey a) (apiKey b),
      enabled = spread (enabled a) (enabled b)\<rparr>"

text \<open>Comparisons with a number: \<open>undefined\<close> converts to NaN, and both come out false.\<close>

definition js_lt :: "real option \<Rightarrow> real \<Rightarrow> bool" where
  "js_lt x b = (case x of None \<Rightarrow> False | Some v \<Rightarrow> v < b)"

definition js_gt :: "real option \<Rightarrow> real \<Rightarrow> bool" where
  "js_gt x b = (case x of None \<Rightarrow> False | Some v \<Rightarrow> v > b)"

definition truthy :: "bool option \<Rightarrow> bool" where
  "truthy b = (b = Some True)"

section \<open>ConfigManager\<close>

text \<open>
  \<open>DEFAULT_CONFIG\<close> is one object of the module, with its own \<open>voice\<close> and
  \<open>copilot\<close> objects; \<open>module_heap\<close> is the store once the module is loaded.
\<close>

definition DEFAULT_CONFIG :: ref where
  "DEFAULT_CONFIG = 2"

definition module_heap :: heap where
  "module_heap =
     \<lparr>voices = (\<lambda>_. \<lparr>pitch = None, speed = None, volume = None, voice = None\<rparr>)
        (0 := \<lparr>pitch = Some 1, speed = Some 1, volume = Some 1, voice = None\<rparr>),
      copilots = (\<lambda>_. \<lparr>apiUrl = None, apiKey = None, enabled = None\<rparr>)
        (1 := \<lparr>apiUrl = None, apiKey = None, enabled = Some False\<rparr>),
      configs = (\<lambda>_. \<lparr>voiceRef = 0, realTimeEnabled = False, copilotRef = 0\<rparr>)
        (2 := \<lparr>voiceRef = 0, realTimeEnabled = True, copilotRef = 1\<rparr>),
      next_ref = 3\<rparr>"

record ConfigManager =
  config :: ref

text \<open>\<open>this.config = { ...DEFAULT_CONFIG, ...initialConfig }\<close>\<close>

definition ConfigManager_new :: "PartialConfig option \<Rightarrow> heap \<Rightarrow> ConfigManager \<times> heap" where
  "ConfigManager_new initialConfig h =
     (let d = configs h DEFAULT_CONFIG;
          c = (case initialConfig of
                 None \<Rightarrow> d
               | Some i \<Rightarrow>
                   \<lparr>voiceRef = (case initVoice i of None \<Rightarrow> voiceRef d | Some r \<Rightarrow> r),
                    realTimeEnabled =
                      (case initRealTimeEnabled i of None \<Rightarrow> realTimeEnabled d | Some b \<Rightarrow> b),
                    copilotRef = (case initCopilot i of None \<Rightarrow> copilotRef d | Some r \<Rightarrow> r)\<rparr>);
          (r, h') = alloc_config c h
      in (\<lparr>config = r\<rparr>, h'))"

text \<open>\<open>return { ...this.config }\<close>: a new object with the same three property values.\<close>

definition getConfig :: "ConfigManager \<Rightarrow> heap \<Rightarrow> ref \<times> heap" where
  "getConfig cm h = alloc_config (configs h (config cm)) h"

definition validateVoiceConfig :: "ConfigManager \<Rightarrow> heap \<Rightarrow> error + unit" where
  "validateVoiceConfig cm h =
     (let v = voices h (voiceRef (configs h (config cm))) in
      if js_lt (pitch v) 0 \<or> js_gt (pitch v) 2 then
        Inl (Error ''Pitch must be between 0.0 and 2.0'')
      else if js_lt (speed v) (1 / 10) \<or> js_gt (speed v) 10 then
        Inl (Error ''Speed must be between 0.1 and 10.0'')
      else if js_lt (volume v) 0 \<or> js_gt (volume v) 1 then
        Inl (Error ''Volume must be between 0.0 and 1.0'')
      else Inr ())"

text \<open>
  \<open>this.config.voice = { ...this.config.voice, ...voiceConfig }; this.validateVoiceConfig()\<close>:
  the result is what the call throws, or nothing, and the store it leaves.
\<close>

definition updateVoiceConfig ::
  "ConfigManager \<Rightarrow> VoiceConfig \<Rightarrow> heap \<Rightarrow> (error + unit) \<times> heap" where
  "updateVoiceConfig cm voiceConfig h =
     (let (r, h1) = alloc_voice (spread_voice (voices h (voiceRef (configs h (config cm)))) voiceConfig) h;
          h2 = assign_config (config cm) (\<lambda>c. c\<lparr>voiceRef := r\<rparr>) h1
      in (validateVoiceConfig cm h2, h2))"

definition updateCopilotConfig :: "ConfigManager \<Rightarrow> CopilotConfig \<Rightarrow> heap \<Rightarrow> heap" where
  "updateCopilotConfig cm copilotConfig h =
     (let (r, h1) = alloc_copilot
            (spread_copilot (copilots h (copilotRef (configs h (config cm)))) copilotConfig) h
      in assign_config (config cm) (\<lambda>c. c\<lparr>copilotRef := r\<rparr>) h1)"

definition setRealTimeEnabled :: "ConfigManager \<Rightarrow> bool \<Rightarrow> heap \<Rightarrow> heap" where
  "setRealTimeEnabled cm b h = assign_config (config cm) (\<lambda>c. c\<lparr>realTimeEnabled := b\<rparr>) h"

text \<open>
  What a caller observes of the stored configuration: the values read through the
  object that \<open>getConfig\<close> returns.
\<close>

definition observed_voice :: "ConfigManager \<Rightarrow> heap \<Rightarrow> VoiceConfig" where
  "observed_voice cm h = (let (r, h') = getConfig cm h in voices h' (voiceRef (configs h' r)))"

definition observed_copilot :: "ConfigManager \<Rightarrow> heap \<Rightarrow> CopilotConfig" where
  "observed_copilot cm h = (let (r, h') = getConfig cm h in copilots h' (copilotRef (configs h' r)))"

definition observed_realTimeEnabled :: "ConfigManager \<Rightarrow> heap \<Rightarrow> bool" where
  "observed_realTimeEnabled cm h = (let (r, h') = getConfig cm h in realTimeEnabled (configs h' r))"

section \<open>TTSEngine and the say library\<close>

text \<open>
  The \<open>say\<close> library is outside the repository.  \<open>say_backend\<close> records the calls
  made to it, in order, and the utterances it has accepted whose completion callback has
  not run yet (an utterance is named by the position of its \<open>speak\<close> call).  What the
  library answers is given with each operation: whether \<open>say.stop()\<close> throws, and
  whether \<open>say.speak(...)\<close> throws or returns, and then which value (declared
  \<open>any\<close>: \<open>None\<close> is a falsy value such as \<open>undefined\<close>, \<open>Some\<close> a handle).
  The library runs a completion callback later, never inside \<open>say.speak\<close>.
\<close>

datatype say_call = SayStop | SaySpeak jsstring "jsstring option" int

record say_backend =
  calls :: "say_call list"
  unresolved :: "nat list"

datatype say_answer = Returns "nat option" | Throws string

record say_env =
  stop_throws :: bool
  speak_answer :: say_answer

datatype promise = Resolved | Rejected error | Pending nat

record TTSEngine =
  voiceConfig :: VoiceConfig
  currentProcess :: "nat option"

definition TTSEngine_new :: "VoiceConfig \<Rightarrow> TTSEngine" where
  "TTSEngine_new initialConfig = \<lparr>voiceConfig = initialConfig, currentProcess = None\<rparr>"

definition TTSEngine_stop :: "bool \<Rightarrow> TTSEngine \<Rightarrow> say_backend \<Rightarrow> TTSEngine \<times> say_backend" where
  "TTSEngine_stop throws e b =
     (if currentProcess e \<noteq> None then
        (let b1 = b\<lparr>calls := calls b @ [SayStop]\<rparr>
         in if throws then (e, b1) else (e\<lparr>currentProcess := None\<rparr>, b1))
      else (e, b))"

text \<open>\<open>Math.round\<close> rounds to the nearest integer, a half upwards.\<close>

definition Math_round :: "real \<Rightarrow> int" where
  "Math_round x = \<lfloor>x + 1 / 2\<rfloor>"

text \<open>
  \<open>options.voice || null\<close> and \<open>options.speed || 1.0\<close>.  The product
  \<open>speed * 200\<close> is taken over the reals, without the rounding of the floating-point
  product.
\<close>

definition voice_argument :: "VoiceConfig \<Rightarrow> jsstring option" where
  "voice_argument v = (case voice v of None \<Rightarrow> None | Some n \<Rightarrow> if n = [] then None else Some n)"

definition speed_argument :: "VoiceConfig \<Rightarrow> int" where
  "speed_argument v =
     (case speed v of
        None \<Rightarrow> 1
      | Some s \<Rightarrow> if Math_round (s * 200) = 0 then 1 else Math_round (s * 200))"

definition TTSEngine_speak ::
  "jsstring \<Rightarrow> say_env \<Rightarrow> TTSEngine \<Rightarrow> say_backend \<Rightarrow> promise \<times> TTSEngine \<times> say_backend" where
  "TTSEngine_speak text env e b =
     (if text = [] \<or> length (trim text) = 0 then (Resolved, e, b)
      else
        (let (e1, b1) = TTSEngine_stop (stop_throws env) e b;
             uid = length (calls b1);
             b2 = b1\<lparr>calls := calls b1 @
                    [SaySpeak text (voice_argument (voiceConfig e1)) (speed_argument (voiceConfig e1))]\<rparr>
         in case speak_answer env of
              Throws m \<Rightarrow> (Rejected (Error (''TTS Error: '' @ m)), e1, b2)
            | Returns p \<Rightarrow>
                (Pending uid, e1\<lparr>currentProcess := p\<rparr>, b2\<lparr>unresolved := unresolved b2 @ [uid]\<rparr>)))"

text \<open>
  The completion callback of utterance \<open>uid\<close>, run by the library with its error or
  none: it clears \<open>currentProcess\<close> and settles the promise of that \<open>speak\<close>.
\<close>

definition speak_callback ::
  "nat \<Rightarrow> string option \<Rightarrow> TTSEngine \<Rightarrow> say_backend \<Rightarrow> promise \<times> TTSEngine \<times> say_backend" where
  "speak_callback uid err e b =
     (case err of
        Some m \<Rightarrow> Rejected (Error (''TTS Error: '' @ m))
      | None \<Rightarrow> Resolved,
      e\<lparr>currentProcess := None\<rparr>,
      b\<lparr>unresolved := removeAll uid (unresolved b)\<rparr>)"

definition setVoiceConfig :: "VoiceConfig \<Rightarrow> TTSEngine \<Rightarrow> TTSEngine" where
  "setVoiceConfig c e = e\<lparr>voiceConfig := c\<rparr>"

section \<open>CopilotIntegration\<close>

record Context =
  fileName :: jsstring
  lineNumber :: real
  columnNumber :: real

record CopilotSuggestion =
  suggestionText :: jsstring
  confidence :: real
  language :: "jsstring option"
  suggestionContext :: "Context option"

text \<open>
  A listener is a function object, named by its reference.  \<open>timeouts\<close> counts the
  timers that \<open>simulateSuggestionStream\<close> has set and that have not fired.
\<close>

record CopilotIntegration =
  integrationConfig :: CopilotConfig
  connected :: bool
  listening :: bool
  suggestionListeners :: "ref list"
  timeouts :: nat

definition CopilotIntegration_new :: CopilotIntegration where
  "CopilotIntegration_new =
     \<lparr>integrationConfig = \<lparr>apiUrl = None, apiKey = None, enabled = Some False\<rparr>,
      connected = False, listening = False, suggestionListeners = [], timeouts = 0\<rparr>"

text \<open>\<open>connectToCopilotAPI\<close> waits for a timer and logs; it has no failing path.\<close>

definition connectToCopilotAPI :: "CopilotIntegration \<Rightarrow> error + unit" where
  "connectToCopilotAPI ci = Inr ()"

definition initialize :: "CopilotConfig \<Rightarrow> CopilotIntegration \<Rightarrow> (error + unit) \<times> CopilotIntegration" where
  "initialize c ci =
     (let ci1 = ci\<lparr>integrationConfig := c\<rparr> in
      if \<not> truthy (enabled (integrationConfig ci1)) then (Inr (), ci1\<lparr>connected := False\<rparr>)
      else
        (case connectToCopilotAPI ci1 of
           Inr _ \<Rightarrow> (Inr (), ci1\<lparr>connected := True\<rparr>)
         | Inl (Error m) \<Rightarrow>
             (Inl (Error (''Failed to initialize Copilot integration: '' @ m)),
              ci1\<lparr>connected := False\<rparr>)))"

definition simulateSuggestionStream :: "CopilotIntegration \<Rightarrow> CopilotIntegration" where
  "simulateSuggestionStream ci = (if \<not> listening ci then ci else ci\<lparr>timeouts := Suc (timeouts ci)\<rparr>)"

definition startListening :: "CopilotIntegration \<Rightarrow> (error + unit) \<times> CopilotIntegration" where
  "startListening ci =
     (if \<not> connected ci then (Inl (Error ''Copilot integration not initialized''), ci)
      else (Inr (), simulateSuggestionStream (ci\<lparr>listening := True\<rparr>)))"

definition stopListening :: "CopilotIntegration \<Rightarrow> CopilotIntegration" where
  "stopListening ci = ci\<lparr>listening := False\<rparr>"

definition isConnected :: "CopilotIntegration \<Rightarrow> bool" where
  "isConnected ci = connected ci"

definition onSuggestion :: "ref \<Rightarrow> CopilotIntegration \<Rightarrow> CopilotIntegration" where
  "onSuggestion listener ci = ci\<lparr>suggestionListeners := suggestionListeners ci @ [listener]\<rparr>"

text \<open>\<open>indexOf\<close> and \<open>splice(index, 1)\<close>: the first occurrence goes, if there is one.\<close>

definition removeSuggestionListener :: "ref \<Rightarrow> CopilotIntegration \<Rightarrow> CopilotIntegration" where
  "removeSuggestionListener listener ci =
     ci\<lparr>suggestionListeners := remove1 listener (suggestionListeners ci)\<rparr>"

text \<open>
  What a listener does when it is called is given by \<open>run\<close>: from the function object,
  the suggestion, the integration (a listener can call its public methods) and the rest
  of the world \<open>'w\<close>, whether the call throws, and the integration and the world it
  leaves.

  \<open>this.suggestionListeners.forEach(...)\<close> reads the length of the array once and then
  visits the indices below it in order, each in the array as it is at that moment; an
  index that is no longer in the array is skipped.  \<open>forEach_listeners run s k n\<close> is
  the loop at index \<open>k\<close> with \<open>n\<close> indices to go.  The first component of the state
  logs the calls made: the listener, and whether its error was caught.
\<close>

type_synonym 'w listener_run =
  "ref \<Rightarrow> CopilotSuggestion \<Rightarrow> CopilotIntegration \<Rightarrow> 'w \<Rightarrow> bool \<times> CopilotIntegration \<times> 'w"

fun forEach_listeners ::
  "'w listener_run \<Rightarrow> CopilotSuggestion \<Rightarrow> nat \<Rightarrow> nat \<Rightarrow>
   (ref \<times> bool) list \<times> CopilotIntegration \<times> 'w \<Rightarrow> (ref \<times> bool) list \<times> CopilotIntegration \<times> 'w" where
  "forEach_listeners run s k 0 st = st"
| "forEach_listeners run s k (Suc n) (called, ci, w) =
     (if k < length (suggestionListeners ci) then
        (let listener = suggestionListeners ci ! k;
             (threw, ci', w') = run listener s ci w
         in forEach_listeners run s (Suc k) n (called @ [(listener, threw)], ci', w'))
      else forEach_listeners run s (Suc k) n (called, ci, w))"

definition notifySuggestionListeners ::
  "'w listener_run \<Rightarrow> CopilotSuggestion \<Rightarrow> CopilotIntegration \<Rightarrow> 'w \<Rightarrow>
   (ref \<times> bool) list \<times> CopilotIntegration \<times> 'w" where
  "notifySuggestionListeners run s ci w =
     forEach_listeners run s 0 (length (suggestionListeners ci)) ([], ci, w)"

section \<open>TTSCopilot\<close>

text \<open>
  The world outside the application object: the store and the \<open>say\<close> library.  An
  \<open>async\<close> method is modelled by what it does up to its return; what it throws is
  the error its promise is rejected with.
\<close>

record world =
  store :: heap
  say :: say_backend

record TTSCopilot =
  configManager :: ConfigManager
  ttsEngine :: TTSEngine
  copilotIntegration :: CopilotIntegration
  isRunning :: bool

definition TTSCopilot_new :: "PartialConfig option \<Rightarrow> world \<Rightarrow> TTSCopilot \<times> world" where
  "TTSCopilot_new initialConfig w =
     (let (cm, h1) = ConfigManager_new initialConfig (store w);
          (c, h2) = getConfig cm h1
      in (\<lparr>configManager = cm,
           ttsEngine = TTSEngine_new (voices h2 (voiceRef (configs h2 c))),
           copilotIntegration = CopilotIntegration_new,
           isRunning = False\<rparr>,
          w\<lparr>store := h2\<rparr>))"

definition TTSCopilot_initialize :: "TTSCopilot \<Rightarrow> world \<Rightarrow> (error + unit) \<times> TTSCopilot \<times> world" where
  "TTSCopilot_initialize t w =
     (let (c, h1) = getConfig (configManager t) (store w);
          cc = copilots h1 (copilotRef (configs h1 c))
      in if truthy (enabled cc) then
           (case initialize cc (copilotIntegration t) of
              (Inl (Error m), ci) \<Rightarrow>
                (Inl (Error (''Failed to initialize TTS Copilot: '' @ m)),
                 t\<lparr>copilotIntegration := ci\<rparr>, w\<lparr>store := h1\<rparr>)
            | (Inr _, ci) \<Rightarrow> (Inr (), t\<lparr>copilotIntegration := ci\<rparr>, w\<lparr>store := h1\<rparr>))
         else (Inr (), t, w\<lparr>store := h1\<rparr>))"

text \<open>
  \<open>this.handleCopilotSuggestion.bind(this)\<close> makes a new function object each time
  \<open>start\<close> registers the handler.
\<close>

definition TTSCopilot_start :: "TTSCopilot \<Rightarrow> world \<Rightarrow> (error + unit) \<times> TTSCopilot \<times> world" where
  "TTSCopilot_start t w =
     (if isRunning t then (Inr (), t, w)
      else
        (let (c, h1) = getConfig (configManager t) (store w);
             t1 = t\<lparr>isRunning := True\<rparr>
         in if truthy (enabled (copilots h1 (copilotRef (configs h1 c))))
               \<and> realTimeEnabled (configs h1 c) then
              (let (f, h2) = alloc_function h1;
                   ci1 = onSuggestion f (copilotIntegration t1)
               in case startListening ci1 of
                    (Inl e, ci2) \<Rightarrow> (Inl e, t1\<lparr>copilotIntegration := ci2\<rparr>, w\<lparr>store := h2\<rparr>)
                  | (Inr _, ci2) \<Rightarrow> (Inr (), t1\<lparr>copilotIntegration := ci2\<rparr>, w\<lparr>store := h2\<rparr>))
            else (Inr (), t1, w\<lparr>store := h1\<rparr>)))"

definition TTSCopilot_stop :: "bool \<Rightarrow> TTSCopilot \<Rightarrow> world \<Rightarrow> TTSCopilot \<times> world" where
  "TTSCopilot_stop throws t w =
     (if \<not> isRunning t then (t, w)
      else
        (let t1 = t\<lparr>isRunning := False\<rparr>;
             (e, b) = TTSEngine_stop throws (ttsEngine t1) (say w)
         in (t1\<lparr>ttsEngine := e, copilotIntegration := stopListening (copilotIntegration t1)\<rparr>,
             w\<lparr>say := b\<rparr>)))"

definition TTSCopilot_speakText ::
  "jsstring \<Rightarrow> say_env \<Rightarrow> TTSCopilot \<Rightarrow> world \<Rightarrow> promise \<times> TTSCopilot \<times> world" where
  "TTSCopilot_speakText text env t w =
     (let processedText = parseText text in
      if \<not> isValidForTTS processedText then
        (Rejected (Error ''Text is not suitable for TTS conversion''), t, w)
      else
        (let (p, e, b) = TTSEngine_speak processedText env (ttsEngine t) (say w)
         in (p, t\<lparr>ttsEngine := e\<rparr>, w\<lparr>say := b\<rparr>)))"

definition TTSCopilot_getConfig :: "TTSCopilot \<Rightarrow> world \<Rightarrow> ref \<times> world" where
  "TTSCopilot_getConfig t w = (let (c, h1) = getConfig (configManager t) (store w) in (c, w\<lparr>store := h1\<rparr>))"

definition TTSCopilot_updateVoiceConfig ::
  "VoiceConfig \<Rightarrow> TTSCopilot \<Rightarrow> world \<Rightarrow> (error + unit) \<times> TTSCopilot \<times> world" where
  "TTSCopilot_updateVoiceConfig partialVoice t w =
     (case updateVoiceConfig (configManager t) partialVoice (store w) of
        (Inl e, h1) \<Rightarrow> (Inl e, t, w\<lparr>store := h1\<rparr>)
      | (Inr _, h1) \<Rightarrow>
          (let (c, h2) = getConfig (configManager t) h1
           in (Inr (),
               t\<lparr>ttsEngine := setVoiceConfig (voices h2 (voiceRef (configs h2 c))) (ttsEngine t)\<rparr>,
               w\<lparr>store := h2\<rparr>)))"

definition TTSCopilot_updateCopilotConfig ::
  "CopilotConfig \<Rightarrow> TTSCopilot \<Rightarrow> world \<Rightarrow> (error + unit) \<times> TTSCopilot \<times> world" where
  "TTSCopilot_updateCopilotConfig copilotConfig t w =
     (let h1 = updateCopilotConfig (configManager t) copilotConfig (store w);
          (c, h2) = getConfig (configManager t) h1;
          cc = copilots h2 (copilotRef (configs h2 c))
      in if truthy (enabled cc) then
           (case initialize cc (copilotIntegration t) of
              (r, ci) \<Rightarrow> (r, t\<lparr>copilotIntegration := ci\<rparr>, w\<lparr>store := h2\<rparr>))
         else (Inr (), t, w\<lparr>store := h2\<rparr>))"

definition isCopilotConnected :: "TTSCopilot \<Rightarrow> bool" where
  "isCopilotConnected t = isConnected (copilotIntegration t)"

definition isServiceRunning :: "TTSCopilot \<Rightarrow> bool" where
  "isServiceRunning t = isRunning t"

text \<open>The two lifecycle states of the application: \<open>isRunning\<close> read as a state.\<close>

datatype lifecycle = Idle | Running

definition lifecycle_of :: "TTSCopilot \<Rightarrow> lifecycle" where
  "lifecycle_of t = (if isServiceRunning t then Running else Idle)"

section \<open>Concrete states for the examples\<close>

text \<open>
  \<open>initial_world\<close> is the world once the module is loaded; \<open>caller_heap\<close> also holds
  two objects of a caller: a voice object with pitch 5 and no speed, and a copilot object
  that is enabled.
\<close>

definition initial_world :: world where
  "initial_world = \<lparr>store = module_heap, say = \<lparr>calls = [], unresolved = []\<rparr>\<rparr>"

definition caller_heap :: heap where
  "caller_heap =
     module_heap\<lparr>voices := (voices module_heap)
                    (3 := \<lparr>pitch = Some 5, speed = None, volume = Some 1, voice = None\<rparr>),
                 copilots := (copilots module_heap)
                    (4 := \<lparr>apiUrl = None, apiKey = None, enabled = Some True\<rparr>),
                 next_ref := 5\<rparr>"

definition caller_world :: world where
  "caller_world = \<lparr>store = caller_heap, say = \<lparr>calls = [], unresolved = []\<rparr>\<rparr>"

definition enabled_config :: PartialConfig where
  "enabled_config = \<lparr>initVoice = None, initRealTimeEnabled = None, initCopilot = Some 4\<rparr>"

definition disable :: CopilotConfig where
  "disable = \<lparr>apiUrl = None, apiKey = None, enabled = Some False\<rparr>"

definition default_voice :: VoiceConfig where
  "default_voice = \<lparr>pitch = Some 1, speed = Some 1, volume = Some 1, voice = None\<rparr>"

text \<open>A \<open>say\<close> library whose \<open>speak\<close> returns a handle and whose \<open>stop\<close> returns.\<close>

definition handle_env :: say_env where
  "handle_env = \<lparr>stop_throws = False, speak_answer = Returns (Some 1)\<rparr>"

definition a_suggestion :: CopilotSuggestion where
  "a_suggestion =
     \<lparr>suggestionText = js ''x'', confidence = 1, language = None, suggestionContext = None\<rparr>"

text \<open>
  Two listeners, 10 registered before 11.  Under \<open>throwing_run\<close> listener 10 throws
  and 11 returns; under \<open>removing_run\<close> listener 10 calls
  \<open>removeSuggestionListener\<close> on itself and returns.
\<close>

definition two_listeners :: CopilotIntegration where
  "two_listeners = onSuggestion 11 (onSuggestion 10 CopilotIntegration_new)"

definition throwing_run :: "unit listener_run" where
  "throwing_run l s ci w = (l = 10, ci, w)"

definition removing_run :: "unit listener_run" where
  "removing_run l s ci w = (False, if l = 10 then removeSuggestionListener l ci else ci, w)"

section \<open>Properties of the text processor\<close>

subsection \<open>White space and trimming\<close>

lemma trim_end_Nil_iff: "trim_end s = [] \<longleftrightarrow> (\<forall>c\<in>set s. is_space c)"
  by (induction s) auto

lemma dropWhile_all_iff: "dropWhile P s = [] \<longleftrightarrow> (\<forall>c\<in>set s. P c)"
  by (induction s) auto

lemma trim_Nil_iff: "trim s = [] \<longleftrightarrow> (\<forall>c\<in>set s. is_space c)"
proof
  assume "trim s = []"
  then have "\<forall>c\<in>set (dropWhile is_space s). is_space c"
    by (simp add: trim_def trim_end_Nil_iff)
  then have "dropWhile is_space s = []"
    by (metis hd_dropWhile list.set_sel(1))
  then show "\<forall>c\<in>set s. is_space c"
    by (simp add: dropWhile_all_iff)
next
  assume "\<forall>c\<in>set s. is_space c"
  then have "dropWhile is_space s = []"
    by (simp add: dropWhile_all_iff)
  then show "trim s = []"
    by (simp only: trim_def trim_end.simps)
qed

lemma split_whitespace_token:
  "\<exists>c\<in>set s. \<not> is_space c \<Longrightarrow> \<exists>w\<in>set (split_whitespace s). w \<noteq> []"
proof (induction s rule: split_whitespace.induct)
  case (1 s)
  from "1.prems" have ne: "s \<noteq> []"
    by auto
  show ?case
  proof (cases "dropWhile (\<lambda>c. \<not> is_space c) s")
    case Nil
    then have "split_whitespace s = [s]"
      by (subst split_whitespace.simps) (simp only: list.case)
    with ne show ?thesis
      by simp
  next
    case (Cons c rest)
    then have sw: "split_whitespace s =
        takeWhile (\<lambda>c. \<not> is_space c) s # split_whitespace (dropWhile is_space rest)"
      by (subst split_whitespace.simps) (simp only: list.case)
    show ?thesis
    proof (cases "takeWhile (\<lambda>c. \<not> is_space c) s = []")
      case False
      with sw show ?thesis
        by simp
    next
      case True
      then have s: "s = c # rest"
        using Cons by (metis append_Nil takeWhile_dropWhile_id)
      have "is_space c"
        using Cons by (metis hd_dropWhile list.sel(1) list.distinct(1))
      with "1.prems" s have "\<exists>d\<in>set rest. \<not> is_space d"
        by auto
      then have "dropWhile is_space rest \<noteq> []"
        by (simp add: dropWhile_all_iff)
      then have "\<not> is_space (hd (dropWhile is_space rest))"
        by (rule hd_dropWhile)
      with \<open>dropWhile is_space rest \<noteq> []\<close>
      have "\<exists>d\<in>set (dropWhile is_space rest). \<not> is_space d"
        by (metis list.set_sel(1))
      from "1.IH"[OF Cons this] sw show ?thesis
        by simp
    qed
  qed
qed

lemma isValidForTTS_false_iff:
  "isValidForTTS s = False \<longleftrightarrow> length (trim s) = 0 \<or> length s > 1000"
proof (cases "length (trim s) = 0 \<or> length s > 1000")
  case True
  then show ?thesis
    by (auto simp add: isValidForTTS_def)
next
  case False
  then have "trim s \<noteq> []"
    by simp
  then have "\<exists>c\<in>set s. \<not> is_space c"
    by (simp add: trim_Nil_iff)
  then have "\<exists>w\<in>set (split_whitespace s). w \<noteq> []"
    by (rule split_whitespace_token)
  then have "filter (\<lambda>word. length word > 0) (split_whitespace s) \<noteq> []"
    by (simp add: filter_empty_conv)
  with False show ?thesis
    by (auto simp add: isValidForTTS_def Let_def)
qed

lemma letter_a_not_space: "\<not> is_space 0x61"
  by (simp add: is_space_def)

text \<open>
  C4.  For every string, \<open>isValidForTTS\<close> returns false exactly when the trimmed
  length is 0 or the length exceeds 1000; so a string of length 1000 that is not blank
  is valid, and no string of length 1001 is.
\<close>

theorem isValidForTTS_boundary:
  "(isValidForTTS s = False \<longleftrightarrow> length (trim s) = 0 \<or> length s > 1000)
   \<and> (length s = 1000 \<and> length (trim s) \<noteq> 0 \<longrightarrow> isValidForTTS s = True)
   \<and> (length s = 1001 \<longrightarrow> isValidForTTS s = False)"
  using isValidForTTS_false_iff [of s] by auto

theorem isValidForTTS_boundary_witness:
  "length (trim (replicate 1000 (0x61 :: jschar))) \<noteq> 0
   \<and> isValidForTTS (replicate 1000 0x61) = True
   \<and> isValidForTTS (replicate 1001 0x61) = False"
proof -
  have "trim (replicate 1000 (0x61 :: jschar)) \<noteq> []"
    by (simp add: trim_Nil_iff letter_a_not_space)
  then have t: "length (trim (replicate 1000 (0x61 :: jschar))) \<noteq> 0"
    by simp
  show ?thesis
    using t isValidForTTS_boundary [of "replicate 1000 0x61"]
      isValidForTTS_boundary [of "replicate 1001 0x61"]
    by simp
qed

subsection \<open>parseText applied again\<close>

lemma backtick_not_allowed: "\<not> is_allowed backtick"
  by (simp add: is_allowed_def is_word_def is_space_def backtick_def)

lemma blank_allowed: "is_allowed blank"
  by (simp add: is_allowed_def is_space_def blank_def)

lemma blank_space: "is_space blank"
  by (simp add: is_space_def blank_def)

lemma remove_code_blocks_id: "backtick \<notin> set s \<Longrightarrow> remove_code_blocks s = s"
proof (induction s)
  case Nil
  show ?case by simp
next
  case (Cons c cs)
  then have "take 3 (c # cs) \<noteq> fence"
    by (auto simp add: fence_def take_Suc_conv_app_nth numeral_3_eq_3 split: list.splits)
  with Cons show ?case
    by simp
qed

lemma remove_inline_code_id: "backtick \<notin> set s \<Longrightarrow> remove_inline_code s = s"
  by (induction s) auto

lemma set_collapse_whitespace: "set (collapse_whitespace s) \<subseteq> insert blank (set s)"
proof (induction s rule: collapse_whitespace.induct)
  case 1
  show ?case by simp
next
  case (2 c cs)
  show ?case
  proof (cases "is_space c")
    case True
    with 2 have "set (collapse_whitespace (dropWhile is_space cs)) \<subseteq> insert blank (set (dropWhile is_space cs))"
      by simp
    moreover have "set (dropWhile is_space cs) \<subseteq> set cs"
      by (auto dest: set_dropWhileD)
    ultimately show ?thesis
      using True by auto
  next
    case False
    with 2 show ?thesis
      by auto
  qed
qed

lemma set_trim_end: "set (trim_end s) \<subseteq> set s"
  by (induction s) auto

lemma set_trim: "set (trim s) \<subseteq> set s"
  unfolding trim_def using set_trim_end [of "dropWhile is_space s"]
  by (auto dest: set_dropWhileD)

lemma allowed_trim_collapse:
  assumes "\<forall>c\<in>set y. is_allowed c"
  shows "\<forall>c\<in>set (trim (collapse_whitespace y)). is_allowed c"
  using assms set_trim [of "collapse_whitespace y"] set_collapse_whitespace [of y] blank_allowed
  by blast

lemma parseText_allowed:
  assumes "\<forall>c\<in>set y. is_allowed c"
  shows "parseText y = trim (collapse_whitespace y)"
proof (cases "y = []")
  case True
  then show ?thesis
    by (simp add: parseText_def trim_def)
next
  case False
  from assms have nb: "backtick \<notin> set y"
    using backtick_not_allowed by blast
  have "filter is_allowed (trim (collapse_whitespace y)) = trim (collapse_whitespace y)"
    using allowed_trim_collapse [OF assms] by (simp add: filter_id_conv)
  with False nb show ?thesis
    by (simp add: parseText_def remove_special_def remove_code_blocks_id remove_inline_code_id)
qed

lemma parseText_chars: "\<forall>c\<in>set (parseText x). is_allowed c"
  by (simp add: parseText_def remove_special_def)

lemma collapse_whitespace_hd:
  "s = [] \<or> \<not> is_space (hd s) \<Longrightarrow>
   collapse_whitespace s = [] \<or> \<not> is_space (hd (collapse_whitespace s))"
  by (cases s) auto

lemma dropWhile_hd: "s = [] \<or> \<not> P (hd s) \<Longrightarrow> dropWhile P s = s"
  by (cases s) auto

lemma dropWhile_hd': "dropWhile P s = [] \<or> \<not> P (hd (dropWhile P s))"
  by (metis hd_dropWhile)

lemma collapse_whitespace_idem:
  "collapse_whitespace (collapse_whitespace s) = collapse_whitespace s"
proof (induction s rule: collapse_whitespace.induct)
  case 1
  show ?case by simp
next
  case (2 c cs)
  show ?case
  proof (cases "is_space c")
    case True
    let ?t = "dropWhile is_space cs"
    have "dropWhile is_space (collapse_whitespace ?t) = collapse_whitespace ?t"
      by (rule dropWhile_hd, rule collapse_whitespace_hd, rule dropWhile_hd')
    with True 2 show ?thesis
      by (simp add: blank_space)
  next
    case False
    with 2 show ?thesis
      by simp
  qed
qed

lemma collapse_whitespace_prefix:
  "collapse_whitespace (u @ v) = u @ v \<Longrightarrow> collapse_whitespace u = u"
proof (induction u)
  case Nil
  show ?case by simp
next
  case (Cons c u)
  show ?case
  proof (cases "is_space c")
    case False
    with Cons show ?thesis
      by simp
  next
    case True
    with Cons.prems have c: "c = blank"
      and eq: "collapse_whitespace (dropWhile is_space (u @ v)) = u @ v"
      by simp_all
    have "u @ v = [] \<or> \<not> is_space (hd (u @ v))"
      using collapse_whitespace_hd [OF dropWhile_hd' [of is_space "u @ v"]] eq by simp
    then have d: "dropWhile is_space (u @ v) = u @ v"
      by (rule dropWhile_hd)
    show ?thesis
    proof (cases u)
      case Nil
      with True c show ?thesis by simp
    next
      case (Cons d u')
      with \<open>u @ v = [] \<or> \<not> is_space (hd (u @ v))\<close> have "\<not> is_space d"
        by simp
      moreover have "collapse_whitespace u = u"
        using Cons.IH eq d by simp
      ultimately show ?thesis
        using True c Cons by simp
    qed
  qed
qed

lemma trim_end_prefix: "\<exists>v. s = trim_end s @ v"
proof (induction s)
  case Nil
  show ?case by simp
next
  case (Cons c cs)
  then obtain v where "cs = trim_end cs @ v" ..
  then show ?case
    by (metis append_Cons append_Nil trim_end.simps(2))
qed

lemma collapse_whitespace_trim_end:
  assumes "collapse_whitespace s = s"
  shows "collapse_whitespace (trim_end s) = trim_end s"
proof -
  obtain v where "s = trim_end s @ v"
    using trim_end_prefix ..
  with assms show ?thesis
    by (metis collapse_whitespace_prefix)
qed

lemma collapse_whitespace_dropWhile:
  assumes "collapse_whitespace s = s"
  shows "collapse_whitespace (dropWhile is_space s) = dropWhile is_space s"
proof (cases s)
  case Nil
  then show ?thesis by simp
next
  case (Cons c cs)
  show ?thesis
  proof (cases "is_space c")
    case False
    with Cons assms show ?thesis by simp
  next
    case True
    with Cons assms have eq: "collapse_whitespace (dropWhile is_space cs) = cs"
      by simp
    then have "collapse_whitespace cs = cs"
      by (metis collapse_whitespace_idem)
    moreover have "cs = [] \<or> \<not> is_space (hd cs)"
      using collapse_whitespace_hd [OF dropWhile_hd' [of is_space cs]] eq by simp
    then have "dropWhile is_space cs = cs"
      by (rule dropWhile_hd)
    ultimately show ?thesis
      using Cons True by simp
  qed
qed

lemma collapse_whitespace_trim:
  "collapse_whitespace (trim (collapse_whitespace y)) = trim (collapse_whitespace y)"
  unfolding trim_def
  by (rule collapse_whitespace_trim_end, rule collapse_whitespace_dropWhile,
      rule collapse_whitespace_idem)

lemma trim_end_idem: "trim_end (trim_end s) = trim_end s"
  by (induction s) auto

lemma hd_trim_end: "trim_end s \<noteq> [] \<Longrightarrow> hd (trim_end s) = hd s"
  by (cases s) (auto split: if_splits)

lemma trim_idem: "trim (trim s) = trim s"
proof -
  let ?t = "dropWhile is_space s"
  have "trim_end ?t = [] \<or> \<not> is_space (hd (trim_end ?t))"
  proof (cases "trim_end ?t = []")
    case True
    then show ?thesis ..
  next
    case False
    then have "?t \<noteq> []"
      by (metis trim_end.simps(1))
    then have "\<not> is_space (hd ?t)"
      by (rule hd_dropWhile)
    with False show ?thesis
      by (simp only: hd_trim_end simp_thms)
  qed
  then have "dropWhile is_space (trim_end ?t) = trim_end ?t"
    by (rule dropWhile_hd)
  then show ?thesis
    by (simp add: trim_def trim_end_idem)
qed

lemma parseText_fixed:
  assumes "\<forall>c\<in>set y. is_allowed c"
  shows "parseText (trim (collapse_whitespace y)) = trim (collapse_whitespace y)"
proof -
  let ?z = "trim (collapse_whitespace y)"
  have "parseText ?z = trim (collapse_whitespace ?z)"
    using allowed_trim_collapse [OF assms] by (rule parseText_allowed)
  also have "\<dots> = trim ?z"
    by (simp only: collapse_whitespace_trim)
  also have "\<dots> = ?z"
    by (rule trim_idem)
  finally show ?thesis .
qed

text \<open>
  C3, the claim as it stands: \<open>parseText\<close> is not idempotent.  Removing a special
  character that stands between two blanks leaves two blanks, which a second call
  collapses.
\<close>

theorem parseText_not_idempotent:
  "parseText (parseText (js ''a @ b'')) \<noteq> parseText (js ''a @ b'')"
  by (simp add: parseText_def js_def remove_special_def trim_def is_space_def is_allowed_def
      is_word_def backtick_def blank_def fence_def)

text \<open>
  C3, amended.  For every string \<open>x\<close>, a second \<open>parseText\<close> does to
  \<open>parseText x\<close> exactly this: it collapses the runs of white space and trims the
  ends.  So \<open>parseText (parseText x) = parseText x\<close> holds if and only if
  \<open>parseText x\<close> is unchanged by collapsing and trimming (removing the special
  characters left no doubled, leading or trailing blank); it holds in particular for
  every \<open>x\<close> made of characters of the allowed class only; and a third
  \<open>parseText\<close> never changes anything after the second.
\<close>

theorem parseText_stabilises:
  "parseText (parseText (parseText x)) = parseText (parseText x)
   \<and> parseText (parseText x) = trim (collapse_whitespace (parseText x))
   \<and> (parseText (parseText x) = parseText x
        \<longleftrightarrow> trim (collapse_whitespace (parseText x)) = parseText x)
   \<and> ((\<forall>c\<in>set x. is_allowed c) \<longrightarrow> parseText (parseText x) = parseText x)"
proof (intro conjI)
  have second: "parseText (parseText x) = trim (collapse_whitespace (parseText x))"
    using parseText_chars by (rule parseText_allowed)
  then show "parseText (parseText x) = trim (collapse_whitespace (parseText x))" .
  from second show "parseText (parseText (parseText x)) = parseText (parseText x)"
    using parseText_fixed [OF parseText_chars, of x] by simp
  from second show "parseText (parseText x) = parseText x
      \<longleftrightarrow> trim (collapse_whitespace (parseText x)) = parseText x"
    by simp
  show "(\<forall>c\<in>set x. is_allowed c) \<longrightarrow> parseText (parseText x) = parseText x"
  proof
    assume a: "\<forall>c\<in>set x. is_allowed c"
    then have "parseText x = trim (collapse_whitespace x)"
      by (rule parseText_allowed)
    then show "parseText (parseText x) = parseText x"
      using parseText_fixed [OF a] by simp
  qed
qed

lemmas text_defs = parseText_def js_def remove_special_def trim_def is_space_def is_allowed_def
  is_word_def backtick_def blank_def fence_def

theorem parseText_stabilises_witness:
  "parseText (js ''a@b `c` d'') = js ''ab d''
   \<and> trim (collapse_whitespace (js ''ab d'')) = js ''ab d''
   \<and> parseText (parseText (js ''a@b `c` d'')) = parseText (js ''a@b `c` d'')
   \<and> list_all is_allowed (js ''a  b.'')
   \<and> parseText (parseText (js ''a  b.'')) = parseText (js ''a  b.'')
   \<and> parseText (js ''a @ b'') = js ''a  b''
   \<and> trim (collapse_whitespace (js ''a  b'')) = js ''a b''
   \<and> parseText (parseText (js ''a @ b'')) = js ''a b''
   \<and> parseText (parseText (parseText (js ''a @ b''))) = parseText (parseText (js ''a @ b''))"
proof -
  have p1: "parseText (js ''a@b `c` d'') = js ''ab d''"
    by (simp add: text_defs)
  have t1: "trim (collapse_whitespace (js ''ab d'')) = js ''ab d''"
    by (simp add: text_defs)
  have i1: "parseText (parseText (js ''a@b `c` d'')) = parseText (js ''a@b `c` d'')"
    using parseText_stabilises [of "js ''a@b `c` d''"] p1 t1 by simp
  have a: "list_all is_allowed (js ''a  b.'')"
    by (simp add: js_def is_allowed_def is_word_def is_space_def)
  then have "\<forall>c\<in>set (js ''a  b.''). is_allowed c"
    by (simp add: list_all_iff)
  then have i2: "parseText (parseText (js ''a  b.'')) = parseText (js ''a  b.'')"
    using parseText_stabilises [of "js ''a  b.''"] by blast
  have p3: "parseText (js ''a @ b'') = js ''a  b''"
    by (simp add: text_defs)
  have t3: "trim (collapse_whitespace (js ''a  b'')) = js ''a b''"
    by (simp add: text_defs)
  have i3: "parseText (parseText (js ''a @ b'')) = js ''a b''"
    using parseText_stabilises [of "js ''a @ b''"] p3 t3 by simp
  show ?thesis
    using p1 t1 i1 a i2 p3 t3 i3 parseText_stabilises [of "js ''a @ b''"] by simp
qed

section \<open>Properties of the configuration store\<close>

lemmas store_defs = ConfigManager_new_def getConfig_def alloc_config_def alloc_voice_def
  alloc_copilot_def assign_config_def assign_voice_def assign_copilot_def observed_voice_def
  observed_copilot_def observed_realTimeEnabled_def updateVoiceConfig_def updateCopilotConfig_def
  validateVoiceConfig_def spread_voice_def spread_copilot_def spread_def js_lt_def js_gt_def
  DEFAULT_CONFIG_def module_heap_def

text \<open>
  C1.  The claim is that a rejected \<open>updateVoiceConfig\<close> leaves the voice
  configuration as it was.  The code assigns the merged object before it validates: on
  a new \<open>ConfigManager\<close>, \<open>updateVoiceConfig({ pitch: 3 })\<close> throws the pitch
  error, and the voice configuration read through \<open>getConfig\<close> has pitch 1 before the
  call and pitch 3 after it.
\<close>

theorem updateVoiceConfig_commits_before_validating:
  "(case ConfigManager_new None module_heap of
      (cm, h) \<Rightarrow>
        (case updateVoiceConfig cm \<lparr>pitch = Some 3, speed = None, volume = None, voice = None\<rparr> h of
           (r, h') \<Rightarrow>
             r = Inl (Error ''Pitch must be between 0.0 and 2.0'')
             \<and> observed_voice cm h = \<lparr>pitch = Some 1, speed = Some 1, volume = Some 1, voice = None\<rparr>
             \<and> observed_voice cm h' = \<lparr>pitch = Some 3, speed = Some 1, volume = Some 1, voice = None\<rparr>))"
  by (simp add: store_defs Let_def)

text \<open>
  C2, the claim as it stands: the object that \<open>getConfig\<close> returns shares its
  \<open>voice\<close> object with the store.  On a new \<open>ConfigManager\<close>, assigning
  \<open>getConfig().voice.pitch = 5\<close> changes the stored pitch from 1 to 5.
\<close>

theorem getConfig_shares_nested_objects:
  "(case ConfigManager_new None module_heap of
      (cm, h) \<Rightarrow>
        (case getConfig cm h of
           (c, h1) \<Rightarrow>
             pitch (observed_voice cm h1) = Some 1
             \<and> pitch (observed_voice cm
                  (assign_voice (voiceRef (configs h1 c)) (\<lambda>v. v\<lparr>pitch := Some 5\<rparr>) h1)) = Some 5))"
  by (simp add: store_defs Let_def)

text \<open>
  C2, amended.  \<open>getConfig\<close> returns a new top-level object (the next free
  reference, so two calls return different objects) with the property values of the
  stored one, hence the same \<open>voice\<close> and \<open>copilot\<close> objects, and writes nothing
  else to the store.  Whatever is assigned to the properties of the returned object
  itself, the stored configuration, and what a later \<open>getConfig\<close> shows of it, is
  unchanged.
\<close>

theorem getConfig_shallow_copy:
  assumes "config cm < next_ref h"
    and "getConfig cm h = (c, h1)"
  shows "c = next_ref h
     \<and> next_ref h1 = Suc (next_ref h)
     \<and> c \<noteq> config cm
     \<and> fst (getConfig cm h1) \<noteq> c
     \<and> configs h1 c = configs h (config cm)
     \<and> voices h1 = voices h
     \<and> copilots h1 = copilots h
     \<and> (\<forall>a. a \<noteq> c \<longrightarrow> configs h1 a = configs h a)
     \<and> configs (assign_config c f h1) (config cm) = configs h (config cm)
     \<and> observed_voice cm (assign_config c f h1) = observed_voice cm h
     \<and> observed_copilot cm (assign_config c f h1) = observed_copilot cm h
     \<and> observed_realTimeEnabled cm (assign_config c f h1) = observed_realTimeEnabled cm h"
  using assms by (auto simp add: store_defs Let_def)

theorem getConfig_shallow_copy_witness:
  "(case ConfigManager_new None module_heap of
      (cm, h) \<Rightarrow>
        config cm = 3 \<and> next_ref h = 4
        \<and> (case getConfig cm h of
             (c, h1) \<Rightarrow>
               c = 4
               \<and> fst (getConfig cm h1) = 5
               \<and> configs h1 c = \<lparr>voiceRef = 0, realTimeEnabled = True, copilotRef = 1\<rparr>
               \<and> configs h1 DEFAULT_CONFIG = configs h DEFAULT_CONFIG
               \<and> observed_realTimeEnabled cm (assign_config c (\<lambda>x. x\<lparr>realTimeEnabled := False\<rparr>) h1)
                   = True
               \<and> observed_voice cm (assign_config c (\<lambda>x. x\<lparr>voiceRef := 1\<rparr>) h1)
                   = \<lparr>pitch = Some 1, speed = Some 1, volume = Some 1, voice = None\<rparr>))"
proof -
  obtain cm h where n: "ConfigManager_new None module_heap = (cm, h)"
    by (cases "ConfigManager_new None module_heap")
  obtain c h1 where g: "getConfig cm h = (c, h1)"
    by (cases "getConfig cm h")
  have b1: "config cm = 3" and b2: "next_ref h = 4"
    and b3: "configs h 3 = \<lparr>voiceRef = 0, realTimeEnabled = True, copilotRef = 1\<rparr>"
    using n by (auto simp add: store_defs Let_def)
  have a: "config cm < next_ref h"
    using b1 b2 by simp
  have o1: "observed_realTimeEnabled cm h = True"
    and o2: "observed_voice cm h = \<lparr>pitch = Some 1, speed = Some 1, volume = Some 1, voice = None\<rparr>"
    using n by (auto simp add: store_defs Let_def)
  note t1 = getConfig_shallow_copy [OF a g, of "\<lambda>x. x\<lparr>realTimeEnabled := False\<rparr>"]
  note t2 = getConfig_shallow_copy [OF a g, of "\<lambda>x. x\<lparr>voiceRef := 1\<rparr>"]
  have c: "c = 4"
    using t1 b2 by simp
  have "next_ref h1 = 5"
    using t1 b2 by simp
  then have s: "fst (getConfig cm h1) = 5"
    by (simp add: getConfig_def alloc_config_def)
  have "configs h1 c = configs h (config cm)"
    using t1 by blast
  then have v: "configs h1 c = \<lparr>voiceRef = 0, realTimeEnabled = True, copilotRef = 1\<rparr>"
    using b1 b3 by simp
  have "\<forall>a. a \<noteq> c \<longrightarrow> configs h1 a = configs h a"
    using t1 by blast
  then have d: "configs h1 DEFAULT_CONFIG = configs h DEFAULT_CONFIG"
    using c by (simp add: DEFAULT_CONFIG_def)
  have "observed_realTimeEnabled cm (assign_config c (\<lambda>x. x\<lparr>realTimeEnabled := False\<rparr>) h1)
      = observed_realTimeEnabled cm h"
    using t1 by blast
  then have r: "observed_realTimeEnabled cm
      (assign_config c (\<lambda>x. x\<lparr>realTimeEnabled := False\<rparr>) h1) = True"
    using o1 by simp
  have "observed_voice cm (assign_config c (\<lambda>x. x\<lparr>voiceRef := 1\<rparr>) h1) = observed_voice cm h"
    using t2 by blast
  then have w: "observed_voice cm (assign_config c (\<lambda>x. x\<lparr>voiceRef := 1\<rparr>) h1)
      = \<lparr>pitch = Some 1, speed = Some 1, volume = Some 1, voice = None\<rparr>"
    using o2 by simp
  show ?thesis
    using n g b1 b2 c s v d r w by simp
qed

text \<open>
  C9.  The constructor is a merge one level deep over the defaults, with no validation.
  It makes one new object and writes nothing else (\<open>DEFAULT_CONFIG\<close> and every
  \<open>voice\<close> and \<open>copilot\<close> object stay as they are).  Each of the three properties
  of the new object is the one given in the initial configuration, and the one of
  \<open>DEFAULT_CONFIG\<close> where the key is not given.  So a \<open>voice\<close> object that is given
  becomes the stored voice object as it is, whatever its properties (absent ones stay
  absent, none is taken from the defaults), and when its pitch, speed or volume is out
  of range the constructor still returns, with a store that \<open>validateVoiceConfig\<close>
  rejects.
\<close>

theorem ConfigManager_new_shallow_merge:
  assumes "ConfigManager_new initialConfig h = (cm, h')"
  shows "config cm = next_ref h
     \<and> next_ref h' = Suc (next_ref h)
     \<and> voices h' = voices h
     \<and> copilots h' = copilots h
     \<and> (\<forall>a. a \<noteq> config cm \<longrightarrow> configs h' a = configs h a)
     \<and> (DEFAULT_CONFIG < next_ref h \<longrightarrow> configs h' DEFAULT_CONFIG = configs h DEFAULT_CONFIG)
     \<and> (initialConfig = None \<longrightarrow> configs h' (config cm) = configs h DEFAULT_CONFIG)
     \<and> (\<forall>i. initialConfig = Some i \<longrightarrow>
          (\<forall>r. initVoice i = Some r \<longrightarrow>
             voiceRef (configs h' (config cm)) = r \<and> observed_voice cm h' = voices h r)
          \<and> (initVoice i = None \<longrightarrow>
             voiceRef (configs h' (config cm)) = voiceRef (configs h DEFAULT_CONFIG))
          \<and> (\<forall>b. initRealTimeEnabled i = Some b \<longrightarrow> realTimeEnabled (configs h' (config cm)) = b)
          \<and> (initRealTimeEnabled i = None \<longrightarrow>
             realTimeEnabled (configs h' (config cm)) = realTimeEnabled (configs h DEFAULT_CONFIG))
          \<and> (\<forall>r. initCopilot i = Some r \<longrightarrow>
             copilotRef (configs h' (config cm)) = r \<and> observed_copilot cm h' = copilots h r)
          \<and> (initCopilot i = None \<longrightarrow>
             copilotRef (configs h' (config cm)) = copilotRef (configs h DEFAULT_CONFIG)))
     \<and> (js_lt (pitch (observed_voice cm h')) 0 \<or> js_gt (pitch (observed_voice cm h')) 2
        \<or> js_lt (speed (observed_voice cm h')) (1 / 10) \<or> js_gt (speed (observed_voice cm h')) 10
        \<or> js_lt (volume (observed_voice cm h')) 0 \<or> js_gt (volume (observed_voice cm h')) 1
        \<longrightarrow> validateVoiceConfig cm h' \<noteq> Inr ())"
proof -
  have new: "config cm = next_ref h"
    and h': "h' = h\<lparr>configs := (configs h)(next_ref h := configs h' (config cm)),
                    next_ref := Suc (next_ref h)\<rparr>"
    using assms by (auto simp add: ConfigManager_new_def alloc_config_def Let_def)
  have frame: "next_ref h' = Suc (next_ref h)" "voices h' = voices h" "copilots h' = copilots h"
    "\<forall>a. a \<noteq> config cm \<longrightarrow> configs h' a = configs h a"
    using new by (subst h', simp)+
  have dflt: "DEFAULT_CONFIG < next_ref h \<longrightarrow> configs h' DEFAULT_CONFIG = configs h DEFAULT_CONFIG"
    using frame(4) new by simp
  have none: "initialConfig = None \<longrightarrow> configs h' (config cm) = configs h DEFAULT_CONFIG"
    using assms by (auto simp add: ConfigManager_new_def alloc_config_def Let_def)
  have obs: "observed_voice cm h' = voices h (voiceRef (configs h' (config cm)))"
    "observed_copilot cm h' = copilots h (copilotRef (configs h' (config cm)))"
    using frame(2,3) by (simp_all add: observed_voice_def observed_copilot_def getConfig_def
        alloc_config_def)
  have some: "\<forall>i. initialConfig = Some i \<longrightarrow>
          (\<forall>r. initVoice i = Some r \<longrightarrow>
             voiceRef (configs h' (config cm)) = r \<and> observed_voice cm h' = voices h r)
          \<and> (initVoice i = None \<longrightarrow>
             voiceRef (configs h' (config cm)) = voiceRef (configs h DEFAULT_CONFIG))
          \<and> (\<forall>b. initRealTimeEnabled i = Some b \<longrightarrow> realTimeEnabled (configs h' (config cm)) = b)
          \<and> (initRealTimeEnabled i = None \<longrightarrow>
             realTimeEnabled (configs h' (config cm)) = realTimeEnabled (configs h DEFAULT_CONFIG))
          \<and> (\<forall>r. initCopilot i = Some r \<longrightarrow>
             copilotRef (configs h' (config cm)) = r \<and> observed_copilot cm h' = copilots h r)
          \<and> (initCopilot i = None \<longrightarrow>
             copilotRef (configs h' (config cm)) = copilotRef (configs h DEFAULT_CONFIG))"
    unfolding obs using assms
    by (auto simp add: ConfigManager_new_def alloc_config_def Let_def)
  have "observed_voice cm h' = voices h' (voiceRef (configs h' (config cm)))"
    using obs(1) frame(2) by simp
  then have val: "js_lt (pitch (observed_voice cm h')) 0 \<or> js_gt (pitch (observed_voice cm h')) 2
        \<or> js_lt (speed (observed_voice cm h')) (1 / 10) \<or> js_gt (speed (observed_voice cm h')) 10
        \<or> js_lt (volume (observed_voice cm h')) 0 \<or> js_gt (volume (observed_voice cm h')) 1
        \<longrightarrow> validateVoiceConfig cm h' \<noteq> Inr ()"
    by (auto simp add: validateVoiceConfig_def Let_def)
  from new frame dflt none some val show ?thesis
    by blast
qed

theorem ConfigManager_new_shallow_merge_witness:
  "(case ConfigManager_new (Some \<lparr>initVoice = Some 3, initRealTimeEnabled = None, initCopilot = None\<rparr>)
           caller_heap of
      (cm, h') \<Rightarrow>
        config cm = 5
        \<and> configs h' (config cm) = \<lparr>voiceRef = 3, realTimeEnabled = True, copilotRef = 1\<rparr>
        \<and> configs h' DEFAULT_CONFIG = \<lparr>voiceRef = 0, realTimeEnabled = True, copilotRef = 1\<rparr>
        \<and> observed_voice cm h' = \<lparr>pitch = Some 5, speed = None, volume = Some 1, voice = None\<rparr>
        \<and> observed_copilot cm h' = \<lparr>apiUrl = None, apiKey = None, enabled = Some False\<rparr>
        \<and> validateVoiceConfig cm h' \<noteq> Inr ())
   \<and> (case ConfigManager_new
           (Some \<lparr>initVoice = None, initRealTimeEnabled = Some False, initCopilot = Some 4\<rparr>)
           caller_heap of
      (cm, h') \<Rightarrow>
        configs h' (config cm) = \<lparr>voiceRef = 0, realTimeEnabled = False, copilotRef = 4\<rparr>
        \<and> observed_copilot cm h' = \<lparr>apiUrl = None, apiKey = None, enabled = Some True\<rparr>)
   \<and> (case ConfigManager_new None caller_heap of
      (cm, h') \<Rightarrow>
        configs h' (config cm) = \<lparr>voiceRef = 0, realTimeEnabled = True, copilotRef = 1\<rparr>)"
proof -
  let ?i = "\<lparr>initVoice = Some 3, initRealTimeEnabled = None, initCopilot = None\<rparr>"
  let ?j = "\<lparr>initVoice = None, initRealTimeEnabled = Some False, initCopilot = Some 4\<rparr>"
  have d: "configs caller_heap DEFAULT_CONFIG = \<lparr>voiceRef = 0, realTimeEnabled = True, copilotRef = 1\<rparr>"
    and x: "next_ref caller_heap = 5" "DEFAULT_CONFIG < next_ref caller_heap"
    and v: "voices caller_heap 3 = \<lparr>pitch = Some 5, speed = None, volume = Some 1, voice = None\<rparr>"
    and c1: "copilots caller_heap 1 = \<lparr>apiUrl = None, apiKey = None, enabled = Some False\<rparr>"
    and c4: "copilots caller_heap 4 = \<lparr>apiUrl = None, apiKey = None, enabled = Some True\<rparr>"
    by (simp_all add: caller_heap_def module_heap_def DEFAULT_CONFIG_def)
  obtain cm1 h1 where n1: "ConfigManager_new (Some ?i) caller_heap = (cm1, h1)"
    by (cases "ConfigManager_new (Some ?i) caller_heap")
  obtain cm2 h2 where n2: "ConfigManager_new (Some ?j) caller_heap = (cm2, h2)"
    by (cases "ConfigManager_new (Some ?j) caller_heap")
  obtain cm3 h3 where n3: "ConfigManager_new None caller_heap = (cm3, h3)"
    by (cases "ConfigManager_new None caller_heap")
  note t1 = ConfigManager_new_shallow_merge [OF n1]
  note t2 = ConfigManager_new_shallow_merge [OF n2]
  note t3 = ConfigManager_new_shallow_merge [OF n3]
  note u1 = t1 [THEN conjunct2, THEN conjunct2, THEN conjunct2]
  note u2 = t2 [THEN conjunct2, THEN conjunct2, THEN conjunct2, THEN conjunct2, THEN conjunct2,
      THEN conjunct2, THEN conjunct2, THEN conjunct1]
  note u3 = t3 [THEN conjunct2, THEN conjunct2, THEN conjunct2, THEN conjunct2, THEN conjunct2,
      THEN conjunct2, THEN conjunct1]
  have a1: "config cm1 = 5"
    using t1 [THEN conjunct1] x by simp
  have k1: "copilots h1 = copilots caller_heap"
    using u1 [THEN conjunct1] .
  have "DEFAULT_CONFIG < next_ref caller_heap \<longrightarrow>
      configs h1 DEFAULT_CONFIG = configs caller_heap DEFAULT_CONFIG"
    using u1 [THEN conjunct2, THEN conjunct2, THEN conjunct1] .
  then have d1: "configs h1 DEFAULT_CONFIG = \<lparr>voiceRef = 0, realTimeEnabled = True, copilotRef = 1\<rparr>"
    using x d by simp
  have f1: "voiceRef (configs h1 (config cm1)) = 3"
    "realTimeEnabled (configs h1 (config cm1)) = True"
    "copilotRef (configs h1 (config cm1)) = 1"
    "observed_voice cm1 h1 = \<lparr>pitch = Some 5, speed = None, volume = Some 1, voice = None\<rparr>"
    using u1 [THEN conjunct2, THEN conjunct2, THEN conjunct2, THEN conjunct2, THEN conjunct1] d v
    by auto
  then have g1: "configs h1 (config cm1) = \<lparr>voiceRef = 3, realTimeEnabled = True, copilotRef = 1\<rparr>"
    by (cases "configs h1 (config cm1)") simp
  have o1: "observed_copilot cm1 h1 = \<lparr>apiUrl = None, apiKey = None, enabled = Some False\<rparr>"
    using k1 f1(3) c1 by (simp add: observed_copilot_def getConfig_def alloc_config_def)
  have "js_gt (pitch (observed_voice cm1 h1)) 2"
    using f1(4) by (simp add: js_gt_def)
  then have r1: "validateVoiceConfig cm1 h1 \<noteq> Inr ()"
    using u1 [THEN conjunct2, THEN conjunct2, THEN conjunct2, THEN conjunct2, THEN conjunct2]
    by blast
  have f2: "voiceRef (configs h2 (config cm2)) = 0"
    "realTimeEnabled (configs h2 (config cm2)) = False"
    "copilotRef (configs h2 (config cm2)) = 4"
    "observed_copilot cm2 h2 = \<lparr>apiUrl = None, apiKey = None, enabled = Some True\<rparr>"
    using u2 d c4 by auto
  then have g2: "configs h2 (config cm2) = \<lparr>voiceRef = 0, realTimeEnabled = False, copilotRef = 4\<rparr>"
    by (cases "configs h2 (config cm2)") simp
  have g3: "configs h3 (config cm3) = \<lparr>voiceRef = 0, realTimeEnabled = True, copilotRef = 1\<rparr>"
    using u3 d by simp
  show ?thesis
    using n1 n2 n3 a1 g1 f1(4) d1 o1 r1 g2 f2(4) g3 by simp
qed

section \<open>Properties of the speech engine\<close>

lemma letters:
  "trim (js ''A'') = js ''A''" "trim (js ''B'') = js ''B''" "trim (js ''C'') = js ''C''"
  "js ''A'' \<noteq> []" "js ''B'' \<noteq> []" "js ''C'' \<noteq> []"
  by (simp_all add: trim_def js_def is_space_def)

text \<open>
  While the engine holds a handle, \<open>speak\<close> of a text that is not blank calls
  \<open>say.stop\<close> and then \<open>say.speak\<close>.
\<close>

lemma speak_stops_held_process:
  assumes "currentProcess e \<noteq> None" and "length (trim s) \<noteq> 0"
    and "TTSEngine_speak s env e b = (p, e', b')"
  shows "calls b' = calls b @
     [SayStop, SaySpeak s (voice_argument (voiceConfig e)) (speed_argument (voiceConfig e))]"
proof -
  from assms(2) have "s \<noteq> []"
    by (auto simp add: trim_def)
  with assms show ?thesis
    by (cases "stop_throws env")
      (auto simp add: TTSEngine_speak_def TTSEngine_stop_def Let_def split: say_answer.splits)
qed

text \<open>
  C6.  The claim is that \<open>say.stop\<close> is called before \<open>say.speak\<close> whenever an
  earlier utterance is unresolved.  The engine knows of an utterance only through
  \<open>currentProcess\<close>, and the completion callback of any utterance clears it.  Speak
  A, then B (which stops A), then let the library run the callback of A: the utterance
  of B is still unresolved, and a \<open>speak\<close> of C now calls \<open>say.speak\<close> with no
  \<open>say.stop\<close> before it, leaving two utterances unresolved.
\<close>

theorem speak_after_stale_callback:
  "(case TTSEngine_speak (js ''A'') handle_env (TTSEngine_new default_voice) \<lparr>calls = [], unresolved = []\<rparr> of
      (p1, e1, b1) \<Rightarrow>
        (case TTSEngine_speak (js ''B'') handle_env e1 b1 of
           (p2, e2, b2) \<Rightarrow>
             (case speak_callback 0 (Some ''stopped'') e2 b2 of
                (p3, e3, b3) \<Rightarrow>
                  (case TTSEngine_speak (js ''C'') handle_env e3 b3 of
                     (p4, e4, b4) \<Rightarrow>
                       calls b2 = [SaySpeak (js ''A'') None 200, SayStop, SaySpeak (js ''B'') None 200]
                       \<and> p2 = Pending 2
                       \<and> unresolved b3 = [2]
                       \<and> calls b4 = calls b3 @ [SaySpeak (js ''C'') None 200]
                       \<and> unresolved b4 = [2, 3]))))"
  by (simp add: TTSEngine_speak_def TTSEngine_stop_def TTSEngine_new_def speak_callback_def
      handle_env_def default_voice_def letters voice_argument_def speed_argument_def
      Math_round_def Let_def)

section \<open>Properties of the suggestion listeners\<close>

lemma forEach_listeners_log:
  assumes "\<forall>l\<in>set L. \<forall>c w. suggestionListeners (fst (snd (run l s c w))) = suggestionListeners c"
    and "suggestionListeners ci = L"
    and "k + n = length L"
  shows "map fst (fst (forEach_listeners run s k n (called, ci, w))) = map fst called @ drop k L
     \<and> suggestionListeners (fst (snd (forEach_listeners run s k n (called, ci, w)))) = L"
  using assms(2,3)
proof (induction n arbitrary: k called ci w)
  case 0
  then show ?case by simp
next
  case (Suc n)
  then have k: "k < length L"
    by simp
  then have m: "L ! k \<in> set L"
    by simp
  obtain threw ci' w' where r: "run (L ! k) s ci w = (threw, ci', w')"
    by (cases "run (L ! k) s ci w")
  with assms(1) m Suc.prems(1) have l: "suggestionListeners ci' = L"
    by (metis fst_conv snd_conv)
  have "k < length (suggestionListeners ci)"
    using k Suc.prems(1) by simp
  then have "forEach_listeners run s k (Suc n) (called, ci, w) =
      forEach_listeners run s (Suc k) n (called @ [(L ! k, threw)], ci', w')"
    using r Suc.prems(1) by simp
  moreover have "Suc k + n = length L"
    using Suc.prems(2) by simp
  ultimately show ?case
    using Suc.IH [OF l, of "Suc k" "called @ [(L ! k, threw)]" w'] k
    by (simp add: Cons_nth_drop_Suc)
qed

text \<open>
  C8.  The claim is that one notification calls every registered listener once, in the
  order of registration.  \<open>forEach\<close> walks the array as it is at each step, so a
  listener that removes itself while it is called moves the later listeners one place
  down and the one registered right after it is never called: with 10 and 11
  registered and 10 removing itself, the notification calls 10 only, and 11, which
  did nothing, is skipped.
\<close>

theorem notifySuggestionListeners_skips_after_removal:
  "suggestionListeners two_listeners = [10, 11]
   \<and> fst (notifySuggestionListeners removing_run a_suggestion two_listeners ()) = [(10, False)]"
  by (simp add: notifySuggestionListeners_def two_listeners_def onSuggestion_def
      CopilotIntegration_new_def removing_run_def removeSuggestionListener_def numeral_2_eq_2)

text \<open>
  What the loop does guarantee: when no registered listener changes the array of
  listeners while it is called, one notification calls the registered listeners, each
  once for each time it is registered, in the order of registration, whichever of them
  throw (every error is caught where it is thrown).
\<close>

lemma notifySuggestionListeners_in_order:
  assumes "\<forall>l\<in>set (suggestionListeners ci). \<forall>c w.
             suggestionListeners (fst (snd (run l s c w))) = suggestionListeners c"
  shows "map fst (fst (notifySuggestionListeners run s ci w)) = suggestionListeners ci"
  using assms
    forEach_listeners_log [where L = "suggestionListeners ci" and run = run and s = s and ci = ci
      and k = 0 and n = "length (suggestionListeners ci)" and called = "[]" and w = w]
  by (simp add: notifySuggestionListeners_def)

lemma notifySuggestionListeners_in_order_example:
  "fst (notifySuggestionListeners throwing_run a_suggestion two_listeners ()) = [(10, True), (11, False)]
   \<and> map fst (fst (notifySuggestionListeners throwing_run a_suggestion two_listeners ()))
       = suggestionListeners two_listeners"
proof -
  have "\<forall>l\<in>set (suggestionListeners two_listeners). \<forall>c w.
          suggestionListeners (fst (snd (throwing_run l a_suggestion c w))) = suggestionListeners c"
    by (simp add: throwing_run_def)
  then have "map fst (fst (notifySuggestionListeners throwing_run a_suggestion two_listeners ()))
      = suggestionListeners two_listeners"
    by (rule notifySuggestionListeners_in_order)
  then show ?thesis
    by (simp add: notifySuggestionListeners_def two_listeners_def onSuggestion_def
        CopilotIntegration_new_def throwing_run_def numeral_2_eq_2)
qed

section \<open>Properties of the application\<close>

lemma is_word_facts: "is_word c \<Longrightarrow> is_allowed c \<and> \<not> is_space c \<and> c \<noteq> backtick"
  unfolding is_allowed_def is_word_def is_space_def backtick_def
  by (auto simp add: word_le_def word_less_def)

lemma collapse_whitespace_id: "\<forall>c\<in>set s. \<not> is_space c \<Longrightarrow> collapse_whitespace s = s"
  by (induction s) auto

lemma trim_end_id: "\<forall>c\<in>set s. \<not> is_space c \<Longrightarrow> trim_end s = s"
  by (induction s) auto

lemma trim_id: "\<forall>c\<in>set s. \<not> is_space c \<Longrightarrow> trim s = s"
  unfolding trim_def by (cases s) (simp_all add: trim_end_id)

lemma parseText_words:
  assumes "\<forall>c\<in>set s. is_word c"
  shows "parseText s = s"
proof -
  from assms have a: "\<forall>c\<in>set s. is_allowed c" and b: "\<forall>c\<in>set s. \<not> is_space c"
    using is_word_facts by blast+
  have "parseText s = trim (collapse_whitespace s)"
    using a by (rule parseText_allowed)
  with b show ?thesis
    by (simp add: collapse_whitespace_id trim_id)
qed

lemma letter_a_word: "is_word 0x61"
  by (simp add: is_word_def)

lemma isValidForTTS_1001: "\<not> isValidForTTS (parseText (replicate 1001 0x61))"
proof -
  have "parseText (replicate 1001 0x61) = replicate 1001 0x61"
    by (rule parseText_words) (simp add: letter_a_word)
  then show ?thesis
    using isValidForTTS_false_iff [of "replicate 1001 0x61"] by simp
qed

lemma isValidForTTS_empty: "\<not> isValidForTTS (parseText [])"
  by (simp add: parseText_def isValidForTTS_def)

text \<open>
  C5.  \<open>speakText\<close> of the empty string and of 1001 letters \<open>a\<close> is rejected with the
  error for unsuitable text, and the application and the world, with the calls made to
  \<open>say\<close>, are as before: no call reaches the library.
\<close>

theorem speakText_unspeakable:
  "TTSCopilot_speakText [] env t w =
     (Rejected (Error ''Text is not suitable for TTS conversion''), t, w)
   \<and> TTSCopilot_speakText (replicate 1001 0x61) env t w =
     (Rejected (Error ''Text is not suitable for TTS conversion''), t, w)"
  by (simp add: TTSCopilot_speakText_def isValidForTTS_empty isValidForTTS_1001)

theorem speakText_unspeakable_witness:
  "(case TTSCopilot_new None initial_world of
      (t0, w0) \<Rightarrow>
        TTSCopilot_speakText [] handle_env t0 w0
          = (Rejected (Error ''Text is not suitable for TTS conversion''), t0, w0)
        \<and> calls (say (snd (snd (TTSCopilot_speakText (replicate 1001 0x61) handle_env t0 w0)))) = [])"
proof -
  obtain t0 w0 where n: "TTSCopilot_new None initial_world = (t0, w0)"
    by (cases "TTSCopilot_new None initial_world")
  then have "calls (say w0) = []"
    by (auto simp add: TTSCopilot_new_def initial_world_def Let_def split: prod.splits)
  with n speakText_unspeakable [of handle_env t0 w0]
  show ?thesis
    by simp
qed

text \<open>
  C7.  A new application is Idle.  After \<open>start\<close> it is Running, and \<open>start\<close> on a
  Running application returns with nothing changed; \<open>stop\<close> takes a Running
  application to Idle, and on an Idle one returns with nothing changed.  The state is
  always one of the two.
\<close>

theorem TTSCopilot_lifecycle:
  "lifecycle_of (fst (TTSCopilot_new initialConfig w0)) = Idle
   \<and> lifecycle_of (fst (snd (TTSCopilot_start t w))) = Running
   \<and> (lifecycle_of t = Running \<longrightarrow> TTSCopilot_start t w = (Inr (), t, w))
   \<and> (lifecycle_of t = Running \<longrightarrow> lifecycle_of (fst (TTSCopilot_stop throws t w)) = Idle)
   \<and> (lifecycle_of t = Idle \<longrightarrow> TTSCopilot_stop throws t w = (t, w))
   \<and> (lifecycle_of t = Idle \<or> lifecycle_of t = Running)"
proof (intro conjI impI)
  show "lifecycle_of (fst (TTSCopilot_new initialConfig w0)) = Idle"
    by (simp add: TTSCopilot_new_def lifecycle_of_def isServiceRunning_def Let_def split: prod.splits)
  show "lifecycle_of (fst (snd (TTSCopilot_start t w))) = Running"
    by (simp add: TTSCopilot_start_def lifecycle_of_def isServiceRunning_def Let_def
        split: prod.splits sum.splits)
  show "TTSCopilot_start t w = (Inr (), t, w)" if "lifecycle_of t = Running"
    using that by (simp add: TTSCopilot_start_def lifecycle_of_def isServiceRunning_def split: if_splits)
  show "lifecycle_of (fst (TTSCopilot_stop throws t w)) = Idle" if "lifecycle_of t = Running"
    using that by (simp add: TTSCopilot_stop_def lifecycle_of_def isServiceRunning_def Let_def
        split: if_splits prod.splits)
  show "TTSCopilot_stop throws t w = (t, w)" if "lifecycle_of t = Idle"
    using that by (simp add: TTSCopilot_stop_def lifecycle_of_def isServiceRunning_def split: if_splits)
  show "lifecycle_of t = Idle \<or> lifecycle_of t = Running"
    by (simp add: lifecycle_of_def)
qed

theorem TTSCopilot_lifecycle_witness:
  "lifecycle_of (fst (TTSCopilot_new None initial_world)) = Idle
   \<and> (case TTSCopilot_new None initial_world of (t0, w0) \<Rightarrow>
        TTSCopilot_stop False t0 w0 = (t0, w0)
        \<and> (case TTSCopilot_start t0 w0 of (r1, t1, w1) \<Rightarrow>
             lifecycle_of t1 = Running
             \<and> TTSCopilot_start t1 w1 = (Inr (), t1, w1)
             \<and> lifecycle_of (fst (TTSCopilot_stop False t1 w1)) = Idle))"
proof -
  obtain t0 w0 where n: "TTSCopilot_new None initial_world = (t0, w0)"
    by (cases "TTSCopilot_new None initial_world")
  obtain r1 t1 w1 where s: "TTSCopilot_start t0 w0 = (r1, t1, w1)"
    by (cases "TTSCopilot_start t0 w0")
  have i: "lifecycle_of t0 = Idle"
    using TTSCopilot_lifecycle [of None initial_world t0 w0 False] n by simp
  have r: "lifecycle_of t1 = Running"
    using TTSCopilot_lifecycle [of None initial_world t0 w0 False] s by simp
  show ?thesis
    using n s i r TTSCopilot_lifecycle [of None initial_world t0 w0 False]
      TTSCopilot_lifecycle [of None initial_world t1 w1 False]
    by simp
qed

text \<open>
  C10.  When the integration is connected and \<open>updateCopilotConfig\<close> is called with
  a partial configuration that leaves \<open>enabled\<close> false after the merge, the call
  returns without initialising the integration again: the integration is as it was, and
  \<open>isCopilotConnected\<close> is still true.
\<close>

theorem updateCopilotConfig_disabled_keeps_connection:
  assumes "isCopilotConnected t"
    and "enabled (spread_copilot (observed_copilot (configManager t) (store w)) copilotConfig) = Some False"
    and "TTSCopilot_updateCopilotConfig copilotConfig t w = (r, t', w')"
  shows "r = Inr () \<and> copilotIntegration t' = copilotIntegration t \<and> isCopilotConnected t'"
proof -
  let ?cm = "configManager t"
  let ?h1 = "updateCopilotConfig ?cm copilotConfig (store w)"
  have "observed_copilot ?cm ?h1 =
      spread_copilot (observed_copilot ?cm (store w)) copilotConfig"
    by (simp add: observed_copilot_def updateCopilotConfig_def getConfig_def alloc_config_def
        alloc_copilot_def assign_config_def Let_def)
  with assms(2) have "\<not> truthy (enabled (observed_copilot ?cm ?h1))"
    by (simp add: truthy_def)
  then show ?thesis
    using assms(1,3)
    by (auto simp add: TTSCopilot_updateCopilotConfig_def observed_copilot_def Let_def
        isCopilotConnected_def split: prod.splits)
qed

lemmas app_defs = TTSCopilot_new_def TTSCopilot_initialize_def TTSCopilot_updateCopilotConfig_def
  initialize_def connectToCopilotAPI_def CopilotIntegration_new_def isCopilotConnected_def
  isConnected_def truthy_def TTSEngine_new_def caller_world_def caller_heap_def enabled_config_def
  disable_def

theorem updateCopilotConfig_disabled_keeps_connection_witness:
  "(case TTSCopilot_new (Some enabled_config) caller_world of
      (t0, w0) \<Rightarrow>
        (case TTSCopilot_initialize t0 w0 of
           (r1, t1, w1) \<Rightarrow>
             isCopilotConnected t1
             \<and> enabled (spread_copilot (observed_copilot (configManager t1) (store w1)) disable)
                 = Some False
             \<and> (case TTSCopilot_updateCopilotConfig disable t1 w1 of
                  (r2, t2, w2) \<Rightarrow> r2 = Inr () \<and> isCopilotConnected t2)))"
proof -
  obtain t0 w0 where n: "TTSCopilot_new (Some enabled_config) caller_world = (t0, w0)"
    by (cases "TTSCopilot_new (Some enabled_config) caller_world")
  obtain r1 t1 w1 where i: "TTSCopilot_initialize t0 w0 = (r1, t1, w1)"
    by (cases "TTSCopilot_initialize t0 w0")
  obtain r2 t2 w2 where u: "TTSCopilot_updateCopilotConfig disable t1 w1 = (r2, t2, w2)"
    by (cases "TTSCopilot_updateCopilotConfig disable t1 w1")
  have c: "isCopilotConnected t1"
    using n i by (auto simp add: app_defs store_defs Let_def)
  have e: "enabled (spread_copilot (observed_copilot (configManager t1) (store w1)) disable)
      = Some False"
    by (simp add: spread_copilot_def spread_def disable_def)
  from updateCopilotConfig_disabled_keeps_connection [OF c e u] n i u c e show ?thesis
    by simp
qed

end
